theory Spec2Isabelle
  imports Complex_Main "HOL-Library.Sublist"
begin

section \<open>Text helpers\<close>

text \<open>
  Python strings are modelled as \<^typ>\<open>string\<close>, one \<^typ>\<open>char\<close> per code point
  below 256. \<open>x in s\<close> on strings is \<open>occurs x s\<close>; \<open>re.sub(p, r, s)\<close> for a pattern
  without regular-expression metacharacters is \<open>replace_all p r s\<close>: the scan goes from
  the left, a match is replaced and the scan resumes behind it.
\<close>

primrec occurs :: "'a list \<Rightarrow> 'a list \<Rightarrow> bool" where
  "occurs q [] = (q = [])"
| "occurs q (c # cs) = (prefix q (c # cs) \<or> occurs q cs)"

fun replace_all :: "'a list \<Rightarrow> 'a list \<Rightarrow> 'a list \<Rightarrow> 'a list" where
  "replace_all p r [] = []"
| "replace_all p r (c # cs) =
     (if p \<noteq> [] \<and> prefix p (c # cs)
      then r @ replace_all p r (drop (length p) (c # cs))
      else c # replace_all p r cs)"

section \<open>Query text normalisation (NL2SQLModule)\<close>

text \<open>
  \<^verbatim>\<open>_clean_sql\<close> applies three literal rewrites, in the insertion order of the
  dictionary \<^verbatim>\<open>replacements\<close>.
\<close>

definition quoted_order_details :: string where
  "quoted_order_details = [CHR 0x22] @ ''Order Details'' @ [CHR 0x22]"

definition replacements :: "(string \<times> string) list" where
  "replacements =
     [(quoted_order_details, ''order_items''),
      (''Order_Items'', ''order_items''),
      (''CustomerName'', ''CompanyName'')]"

definition clean_sql :: "string \<Rightarrow> string" where
  "clean_sql sql = foldl (\<lambda>s (pattern, replacement). replace_all pattern replacement s) sql replacements"

section \<open>Python values and builtins\<close>

text \<open>
  The values that flow through the run state. A float is a real number or one of
  Python's non-finite floats; arithmetic on confidences is done over the reals.
  \<open>Inf True\<close> is \<open>inf\<close>, \<open>Inf False\<close> is \<open>-inf\<close>.
\<close>

datatype pyfloat = Fin real | Inf bool | NaN

datatype pyval =
    PNone
  | PBool bool
  | PInt int
  | PFloat pyfloat
  | PStr string
  | PList "pyval list"
  | PDict "(string \<times> pyval) list"

text \<open>
  The library functions the code calls are parameters of the model: \<open>str_of\<close> is
  \<^verbatim>\<open>str(x)\<close> on a value that is not a string, \<open>float_of\<close> is \<^verbatim>\<open>float(text)\<close> and
  \<open>json_loads\<close> is \<^verbatim>\<open>json.loads(text)\<close>, both \<open>None\<close> where Python raises, and
  \<open>json_dumps\<close> is \<^verbatim>\<open>json.dumps(x)\<close>.
\<close>

record builtins =
  str_of :: "pyval \<Rightarrow> string"
  float_of :: "string \<Rightarrow> pyfloat option"
  json_loads :: "string \<Rightarrow> pyval option"
  json_dumps :: "pyval \<Rightarrow> string"

definition py_str :: "builtins \<Rightarrow> pyval \<Rightarrow> string" where
  "py_str B x = (case x of PStr t \<Rightarrow> t | _ \<Rightarrow> str_of B x)"

definition type_name :: "pyval \<Rightarrow> string" where
  "type_name x = (case x of PNone \<Rightarrow> ''NoneType'' | PBool _ \<Rightarrow> ''bool'' | PInt _ \<Rightarrow> ''int''
     | PFloat _ \<Rightarrow> ''float'' | PStr _ \<Rightarrow> ''str'' | PList _ \<Rightarrow> ''list'' | PDict _ \<Rightarrow> ''dict'')"

definition is_list :: "pyval \<Rightarrow> bool" where
  "is_list x = (case x of PList _ \<Rightarrow> True | _ \<Rightarrow> False)"

definition is_dict :: "pyval \<Rightarrow> bool" where
  "is_dict x = (case x of PDict _ \<Rightarrow> True | _ \<Rightarrow> False)"

text \<open>\<^verbatim>\<open>isinstance(x, int)\<close> holds for booleans too.\<close>

definition is_int :: "pyval \<Rightarrow> bool" where
  "is_int x = (case x of PInt _ \<Rightarrow> True | PBool _ \<Rightarrow> True | _ \<Rightarrow> False)"

definition is_float :: "pyval \<Rightarrow> bool" where
  "is_float x = (case x of PFloat _ \<Rightarrow> True | _ \<Rightarrow> False)"

definition is_str :: "pyval \<Rightarrow> bool" where
  "is_str x = (case x of PStr _ \<Rightarrow> True | _ \<Rightarrow> False)"

definition is_space :: "char \<Rightarrow> bool" where
  "is_space c = (of_char c \<in> set [9, 10, 11, 12, 13, 28, 29, 30, 31, 32, 133, 160 :: nat])"

definition strip :: "string \<Rightarrow> string" where
  "strip t = rev (dropWhile is_space (rev (dropWhile is_space t)))"

definition lower_char :: "char \<Rightarrow> char" where
  "lower_char c =
     (let n = (of_char c :: nat)
      in if (65 \<le> n \<and> n \<le> 90) \<or> (192 \<le> n \<and> n \<le> 222 \<and> n \<noteq> 215) then char_of (n + 32) else c)"

definition lower :: "string \<Rightarrow> string" where
  "lower t = map lower_char t"

definition is_digit_char :: "char \<Rightarrow> bool" where
  "is_digit_char c = (let n = (of_char c :: nat) in (48 \<le> n \<and> n \<le> 57) \<or> n \<in> set [178, 179, 185])"

definition isdigit :: "string \<Rightarrow> bool" where
  "isdigit t = (t \<noteq> [] \<and> list_all is_digit_char t)"

text \<open>\<^verbatim>\<open>int(f)\<close> truncates towards zero and raises on a non-finite float.\<close>

definition py_int :: "pyfloat \<Rightarrow> int option" where
  "py_int f = (case f of Fin r \<Rightarrow> Some (if 0 \<le> r then \<lfloor>r\<rfloor> else \<lceil>r\<rceil>) | _ \<Rightarrow> None)"

definition round_half_even :: "real \<Rightarrow> int" where
  "round_half_even x =
     (let f = \<lfloor>x\<rfloor>; d = x - of_int f
      in if d < 1 / 2 then f else if 1 / 2 < d then f + 1 else if even f then f else f + 1)"

definition round2 :: "real \<Rightarrow> real" where
  "round2 x = of_int (round_half_even (x * 100)) / 100"

text \<open>\<^verbatim>\<open>round(f, 2)\<close>; a non-finite float is returned as it is.\<close>

definition py_round2 :: "pyfloat \<Rightarrow> pyfloat" where
  "py_round2 f = (case f of Fin r \<Rightarrow> Fin (round2 r) | _ \<Rightarrow> f)"

fun split_on :: "'a list \<Rightarrow> 'a list \<Rightarrow> 'a list \<Rightarrow> 'a list list" where
  "split_on sep cur [] = [cur]"
| "split_on sep cur (c # cs) =
     (if sep \<noteq> [] \<and> prefix sep (c # cs)
      then cur # split_on sep [] (drop (length sep) (c # cs))
      else split_on sep (cur @ [c]) cs)"

fun join :: "'a list \<Rightarrow> 'a list list \<Rightarrow> 'a list" where
  "join sep [] = []"
| "join sep [x] = x"
| "join sep (x # y # ys) = x @ sep @ join sep (y # ys)"

section \<open>Collaborator results\<close>

text \<open>
  \<^verbatim>\<open>SQLResult\<close> of \<^verbatim>\<open>sqlite_tool.py\<close>; its field \<^verbatim>\<open>error\<close> is \<open>err\<close> here, the
  name \<open>error\<close> being the run state's field. A retrieved document is the dictionary
  \<^verbatim>\<open>{id, content, score}\<close>; \<open>doc_id\<close> is \<^verbatim>\<open>doc.get('id', '')\<close>.
\<close>

record SQLResult =
  columns :: "string list"
  rows :: "pyval list list"
  err :: "string option"

record doc =
  doc_id :: string
  content :: string
  score :: real

text \<open>
  \<^verbatim>\<open>SQLiteTool.execute\<close>. What the connection does with an accepted query is the store's
  answer: \<open>Inl msg\<close> when it raises with message \<open>msg\<close>, \<open>Inr (columns, rows)\<close> otherwise.
\<close>

definition execute :: "string + string list \<times> pyval list list \<Rightarrow> string \<Rightarrow> SQLResult" where
  "execute store query =
     (if query = [] \<or> strip query = []
      then \<lparr>columns = [], rows = [], err = Some ''empty_query''\<rparr>
      else if 5000 < length (strip query)
      then \<lparr>columns = [], rows = [], err = Some ''query_too_long''\<rparr>
      else (case store of
              Inr (cols, rws) \<Rightarrow> \<lparr>columns = cols, rows = rws, err = None\<rparr>
            | Inl msg \<Rightarrow> \<lparr>columns = [], rows = [], err = Some (take 200 msg)\<rparr>))"

section \<open>The modules of \<^verbatim>\<open>dspy_signatures.py\<close>\<close>

text \<open>
  The reasoning capability returns the output fields of a signature; a field is
  \<open>None\<close> when the returned object has no such attribute, which is where the code's
  \<^verbatim>\<open>getattr(result, name, default)\<close> takes its default.
\<close>

definition router_forward :: "string option \<Rightarrow> string" where
  "router_forward lm_route =
     (let route = strip (lower (case lm_route of None \<Rightarrow> ''hybrid'' | Some t \<Rightarrow> t))
      in if route \<in> set [''rag'', ''sql'', ''hybrid''] then route else ''hybrid'')"

definition nl2sql_forward :: "string option \<Rightarrow> string" where
  "nl2sql_forward lm_sql =
     (let sql = strip (case lm_sql of None \<Rightarrow> [] | Some t \<Rightarrow> t);
          sql = (if sql \<noteq> [] then clean_sql sql else sql)
      in if sql \<noteq> [] then sql else ''SELECT 1 as error'')"

definition planner_forward :: "builtins \<Rightarrow> string option \<Rightarrow> string" where
  "planner_forward B lm_constraints =
     (let constraints_str = (case lm_constraints of None \<Rightarrow> ''{}'' | Some t \<Rightarrow> t);
          constraints = (case json_loads B constraints_str of Some v \<Rightarrow> v | None \<Rightarrow> PDict [])
      in json_dumps B constraints)"

record lm_synthesis =
  lm_final_answer :: "pyval option"
  lm_explanation :: "string option"
  lm_citations :: "string option"

text \<open>The \<^verbatim>\<open>dspy.Prediction\<close> that \<^verbatim>\<open>SynthesizerModule.forward\<close> returns.\<close>

record prediction =
  pred_final_answer :: pyval
  pred_confidence :: real
  pred_explanation :: string
  pred_citations :: pyval

text \<open>\<^verbatim>\<open>sql_result and hasattr(sql_result, 'rows') and sql_result.rows\<close>\<close>

definition has_rows :: "SQLResult option \<Rightarrow> bool" where
  "has_rows sql_result = (case sql_result of None \<Rightarrow> False | Some r \<Rightarrow> rows r \<noteq> [])"

text \<open>
  \<^verbatim>\<open>list(set(citations))\<close> leaves the order of the result open; the model keeps the
  order of first occurrence.
\<close>

definition generate_basic_citations :: "SQLResult option \<Rightarrow> doc list \<Rightarrow> string list" where
  "generate_basic_citations sql_result retrieved_docs =
     (let citations = filter (\<lambda>i. i \<noteq> []) (map doc_id retrieved_docs);
          citations = (if has_rows sql_result
                       then citations @ [''Orders'', ''Order Details'', ''Products'', ''Customers'']
                       else citations)
      in remdups citations)"

definition calculate_confidence :: "SQLResult option \<Rightarrow> doc list \<Rightarrow> nat \<Rightarrow> real" where
  "calculate_confidence sql_result retrieved_docs repair_count =
     (let confidence = 0.5;
          confidence = (if has_rows sql_result then confidence + 0.3 else confidence);
          confidence = (if retrieved_docs \<noteq> [] then confidence + 0.2 else confidence);
          confidence = confidence * 0.9 ^ repair_count
      in max 0.1 (min 1.0 confidence))"

definition get_format_default :: "string \<Rightarrow> pyval" where
  "get_format_default format_hint =
     (if format_hint = ''int'' then PInt 0
      else if format_hint = ''float'' then PFloat (Fin 0)
      else if format_hint = ''list'' then PList []
      else if format_hint = ''object'' then PDict []
      else if prefix ''list['' format_hint then PList []
      else if prefix ''{'' format_hint then PDict []
      else PStr ''Error'')"

text \<open>
  The body of the \<^verbatim>\<open>try\<close> of \<^verbatim>\<open>_format_answer\<close>: \<open>None\<close> when it raises, which is
  where \<^verbatim>\<open>int(float(x))\<close> or \<^verbatim>\<open>round(float(x), 2)\<close> fails. The two inner
  \<^verbatim>\<open>try\<close> blocks around \<^verbatim>\<open>json.loads\<close> have their own handlers.
\<close>

definition format_answer_try :: "builtins \<Rightarrow> pyval \<Rightarrow> string \<Rightarrow> pyval option" where
  "format_answer_try B answer format_hint =
     (let answer_str = strip (py_str B answer)
      in if format_hint = ''int''
         then (case float_of B answer_str of None \<Rightarrow> None
               | Some f \<Rightarrow> map_option PInt (py_int f))
         else if format_hint = ''float''
         then (case float_of B answer_str of None \<Rightarrow> None
               | Some f \<Rightarrow> Some (PFloat (py_round2 f)))
         else if prefix ''list['' format_hint \<or> format_hint = ''list''
         then (if is_list answer then Some answer
               else (case json_loads B answer_str of Some v \<Rightarrow> Some v
                     | None \<Rightarrow> Some (PList [PStr answer_str])))
         else if prefix ''{'' format_hint \<or> format_hint = ''object''
         then (if is_dict answer then Some answer
               else (case json_loads B answer_str of Some v \<Rightarrow> Some v
                     | None \<Rightarrow> Some (PDict [(''result'', PStr answer_str)])))
         else Some (PStr answer_str))"

definition format_answer :: "builtins \<Rightarrow> pyval \<Rightarrow> string \<Rightarrow> pyval" where
  "format_answer B answer format_hint =
     (case format_answer_try B answer format_hint of
        Some v \<Rightarrow> v
      | None \<Rightarrow> get_format_default format_hint)"

text \<open>
  \<^verbatim>\<open>SynthesizerModule.forward\<close>, from the fields the reasoning capability returned.
  Rendering the evidence string and calling the capability are the collaborator's part.
\<close>

definition forward ::
  "builtins \<Rightarrow> lm_synthesis \<Rightarrow> string \<Rightarrow> SQLResult option \<Rightarrow> doc list \<Rightarrow> nat \<Rightarrow> prediction" where
  "forward B result format_hint sql_result retrieved_docs repair_count =
     (let final_answer = (case lm_final_answer result of
                            None \<Rightarrow> get_format_default format_hint | Some a \<Rightarrow> a);
          explanation = take 200 (case lm_explanation result of
                            None \<Rightarrow> ''Generated from available data'' | Some t \<Rightarrow> t);
          citations_str = (case lm_citations result of None \<Rightarrow> ''[]'' | Some t \<Rightarrow> t);
          citations = (if citations_str \<noteq> []
                       then (case json_loads B citations_str of
                               Some v \<Rightarrow> v
                             | None \<Rightarrow> PList (map PStr
                                  (generate_basic_citations sql_result retrieved_docs)))
                       else PList []);
          confidence = calculate_confidence sql_result retrieved_docs repair_count
      in \<lparr>pred_final_answer = format_answer B final_answer format_hint,
          pred_confidence = confidence,
          pred_explanation = explanation,
          pred_citations = citations\<rparr>)"

section \<open>The run state and the nodes of \<^verbatim>\<open>graph_hybrid.py\<close>\<close>

text \<open>
  \<^verbatim>\<open>AgentState\<close>. The driver builds the initial state with every key present, so a
  \<^verbatim>\<open>state.get(key, default)\<close> of the code reads the stored value, also when that
  value is \<^verbatim>\<open>None\<close>. \<open>repair_count\<close> starts at 0 and is only ever incremented.
\<close>

record AgentState =
  question :: string
  format_hint :: string
  route :: string
  retrieved_docs :: "doc list"
  extracted_constraints :: pyval
  sql :: string
  sql_result :: "SQLResult option"
  final_answer :: pyval
  confidence :: real
  explanation :: string
  citations :: pyval
  error :: "string option"
  repair_count :: nat

text \<open>
  What the collaborators answer when a node calls them: the fields returned by the
  reasoning capability in its four roles, the retriever's result and the store's
  answer. One such record is consumed per executed node; a node reads only its own part.
\<close>

record outputs =
  lm_route :: "string option"
  found_docs :: "doc list"
  lm_constraints :: "string option"
  lm_sql :: "string option"
  store :: "string + string list \<times> pyval list list"
  lm_synth :: lm_synthesis

datatype node = Router | Retriever | Planner | NL2SQL | Executor | Synthesizer | Repair | END

datatype exn = AttributeError

definition exn_text :: "exn \<Rightarrow> string" where
  "exn_text e = (case e of AttributeError \<Rightarrow>
     [CHR 0x27] @ ''NoneType'' @ [CHR 0x27] @ '' object has no attribute ''
       @ [CHR 0x27] @ ''startswith'' @ [CHR 0x27])"

definition router_node :: "outputs \<Rightarrow> AgentState \<Rightarrow> AgentState" where
  "router_node out state = state\<lparr>route := router_forward (lm_route out)\<rparr>"

definition retriever_node :: "outputs \<Rightarrow> AgentState \<Rightarrow> AgentState" where
  "retriever_node out state = state\<lparr>retrieved_docs := found_docs out\<rparr>"

definition planner_node :: "builtins \<Rightarrow> outputs \<Rightarrow> AgentState \<Rightarrow> AgentState" where
  "planner_node B out state =
     (let constraints_str = planner_forward B (lm_constraints out)
      in state\<lparr>extracted_constraints :=
           (case json_loads B constraints_str of Some v \<Rightarrow> v | None \<Rightarrow> PDict [])\<rparr>)"

definition nl2sql_node :: "outputs \<Rightarrow> AgentState \<Rightarrow> AgentState" where
  "nl2sql_node out state = state\<lparr>sql := nl2sql_forward (lm_sql out)\<rparr>"

definition executor_node :: "outputs \<Rightarrow> AgentState \<Rightarrow> AgentState" where
  "executor_node out state =
     (let res = execute (store out) (sql state)
      in state\<lparr>sql_result := Some res,
               error := (if err res \<noteq> None \<and> err res \<noteq> Some [] then err res else None)\<rparr>)"

definition synthesizer_node :: "builtins \<Rightarrow> outputs \<Rightarrow> AgentState \<Rightarrow> AgentState" where
  "synthesizer_node B out state =
     (let result = forward B (lm_synth out) (format_hint state) (sql_result state)
                     (retrieved_docs state) (repair_count state)
      in state\<lparr>final_answer := pred_final_answer result,
               confidence := pred_confidence result,
               explanation := pred_explanation result,
               citations := pred_citations result\<rparr>)"

definition validate_format :: "builtins \<Rightarrow> pyval \<Rightarrow> string \<Rightarrow> bool" where
  "validate_format B answer fh =
     (if fh = ''int''
      then is_int answer \<or>
           ((is_str answer \<or> is_float answer) \<and>
            isdigit (filter (\<lambda>c. c \<noteq> CHR ''-'') (filter (\<lambda>c. c \<noteq> CHR ''.'') (py_str B answer))))
      else if fh = ''float''
      then is_int answer \<or> is_float answer \<or>
           (case answer of PStr t \<Rightarrow> float_of B t \<noteq> None | _ \<Rightarrow> False)
      else if fh = ''list'' then is_list answer
      else if fh = ''object'' then is_dict answer
      else if prefix ''list['' fh \<or> fh = ''list'' then is_list answer
      else if prefix ''{'' fh \<or> fh = ''object'' then is_dict answer
      else True)"

definition detect_sql_error :: "AgentState \<Rightarrow> string option" where
  "detect_sql_error state =
     (case sql_result state of
        None \<Rightarrow> None
      | Some res \<Rightarrow>
          (case err res of
             None \<Rightarrow> None
           | Some e \<Rightarrow>
               if e = [] then None
               else let error_lower = lower e
                    in if occurs ''syntax error'' error_lower
                       then Some (''sql_syntax_error'' @ '': '' @ e)
                       else if occurs ''no such table'' error_lower
                       then Some (''sql_table_error'' @ '': '' @ e)
                       else if occurs ''no such column'' error_lower
                       then Some (''sql_column_error'' @ '': '' @ e)
                       else Some (''sql_execution_error: '' @ e)))"

definition detect_format_error :: "builtins \<Rightarrow> AgentState \<Rightarrow> string option" where
  "detect_format_error B state =
     (if \<not> validate_format B (final_answer state) (format_hint state)
      then Some (''format_validation_failed: expected '' @ format_hint state @ '', got ''
                  @ type_name (final_answer state))
      else None)"

definition repair_node :: "builtins \<Rightarrow> AgentState \<Rightarrow> AgentState" where
  "repair_node B state0 =
     (let state = state0\<lparr>repair_count := repair_count state0 + 1\<rparr>
      in if 2 < repair_count state
         then state\<lparr>confidence := max 0.1 (confidence state * 0.3), error := None\<rparr>
         else if detect_sql_error state = None \<and> detect_format_error B state = None
         then state\<lparr>error := None,
                    confidence := max 0.1 (confidence state * 0.9 ^ repair_count state)\<rparr>
         else state)"

definition should_retrieve :: "AgentState \<Rightarrow> node" where
  "should_retrieve state = (if route state \<in> set [''rag'', ''hybrid''] then Retriever else Planner)"

definition should_plan :: "AgentState \<Rightarrow> node" where
  "should_plan state = (if route state \<in> set [''sql'', ''hybrid''] then Planner else Synthesizer)"

definition should_execute_sql :: "AgentState \<Rightarrow> node" where
  "should_execute_sql state = (if route state \<in> set [''sql'', ''hybrid''] then NL2SQL else Synthesizer)"

definition should_repair :: "builtins \<Rightarrow> AgentState \<Rightarrow> node" where
  "should_repair B state =
     (if 2 \<le> repair_count state then END
      else if detect_sql_error state \<noteq> None \<or> detect_format_error B state \<noteq> None then Repair
      else END)"

text \<open>
  \<^verbatim>\<open>after_repair\<close> calls \<^verbatim>\<open>startswith\<close> on the stored \<^verbatim>\<open>error\<close>; on \<^verbatim>\<open>None\<close> that
  raises \<^verbatim>\<open>AttributeError\<close>.
\<close>

definition after_repair :: "AgentState \<Rightarrow> exn + node" where
  "after_repair state =
     (case error state of
        None \<Rightarrow> Inl AttributeError
      | Some e \<Rightarrow>
          if prefix ''sql_'' e then Inr NL2SQL
          else if prefix ''format_'' e \<or> prefix ''missing_'' e then Inr Synthesizer
          else Inr Synthesizer)"

section \<open>The graph of \<^verbatim>\<open>build_graph\<close>\<close>

text \<open>
  One step runs the node and follows its outgoing edge: the node's function, then the
  routing function registered for it. \<open>Inl\<close> is an exception leaving the graph.
\<close>

definition step :: "builtins \<Rightarrow> outputs \<Rightarrow> node \<Rightarrow> AgentState \<Rightarrow> exn + node \<times> AgentState" where
  "step B out n state =
     (case n of
        Router \<Rightarrow> (let s = router_node out state in Inr (should_retrieve s, s))
      | Retriever \<Rightarrow> (let s = retriever_node out state in Inr (should_plan s, s))
      | Planner \<Rightarrow> (let s = planner_node B out state in Inr (should_execute_sql s, s))
      | NL2SQL \<Rightarrow> Inr (Executor, nl2sql_node out state)
      | Executor \<Rightarrow> Inr (Synthesizer, executor_node out state)
      | Synthesizer \<Rightarrow> (let s = synthesizer_node B out state in Inr (should_repair B s, s))
      | Repair \<Rightarrow> (let s = repair_node B state
                   in case after_repair s of Inl e \<Rightarrow> Inl e | Inr n' \<Rightarrow> Inr (n', s))
      | END \<Rightarrow> Inr (END, state))"

text \<open>
  \<open>exec_steps\<close> runs one node per collaborator record and gives the configuration
  reached, the node to run next and the state.
\<close>

fun exec_steps :: "builtins \<Rightarrow> outputs list \<Rightarrow> node \<Rightarrow> AgentState \<Rightarrow> exn + node \<times> AgentState" where
  "exec_steps B [] n state = Inr (n, state)"
| "exec_steps B (out # outs) n state =
     (case step B out n state of
        Inl e \<Rightarrow> Inl e
      | Inr (n', s) \<Rightarrow> exec_steps B outs n' s)"

text \<open>
  \<^verbatim>\<open>graph.invoke\<close>: the run from a node to \<open>END\<close>, with the list of the nodes it
  executed. The list of collaborator records is the fuel: \<open>None\<close> means the list ended
  before the run did.
\<close>

datatype result = Finished AgentState | Raised exn

fun run :: "builtins \<Rightarrow> outputs list \<Rightarrow> node \<Rightarrow> AgentState \<Rightarrow> (node list \<times> result) option" where
  "run B [] n state = (if n = END then Some ([], Finished state) else None)"
| "run B (out # outs) n state =
     (if n = END then Some ([], Finished state)
      else (case step B out n state of
              Inl e \<Rightarrow> Some ([n], Raised e)
            | Inr (n', s) \<Rightarrow> map_option (\<lambda>(tr, r). (n # tr, r)) (run B outs n' s)))"

section \<open>The driver of \<^verbatim>\<open>run_agent_hybrid.py\<close>\<close>

definition initial_state :: "string \<Rightarrow> string \<Rightarrow> AgentState" where
  "initial_state q fh =
     \<lparr>question = q, format_hint = fh, route = [], retrieved_docs = [],
      extracted_constraints = PDict [], sql = [], sql_result = None,
      final_answer = PNone, confidence = 0.0, explanation = [], citations = PList [],
      error = None, repair_count = 0\<rparr>"

definition get_fallback_answer :: "string \<Rightarrow> pyval" where
  "get_fallback_answer fh =
     (if fh = ''int'' then PInt 0
      else if fh = ''float'' then PFloat (Fin 0)
      else if fh = ''list'' then PList []
      else if fh = ''object'' then PDict []
      else if prefix ''list['' fh then PList []
      else if prefix ''{'' fh then PDict []
      else PStr ''Error: Unable to generate answer'')"

definition format_answer_for_output :: "builtins \<Rightarrow> pyval \<Rightarrow> string \<Rightarrow> pyval" where
  "format_answer_for_output B answer fh =
     (let tried =
        (if fh = ''int''
         then (case float_of B (py_str B answer) of None \<Rightarrow> None
               | Some f \<Rightarrow> map_option PInt (py_int f))
         else if fh = ''float''
         then (case float_of B (py_str B answer) of None \<Rightarrow> None
               | Some f \<Rightarrow> Some (PFloat (py_round2 f)))
         else if prefix ''list['' fh \<or> fh = ''list''
         then (if is_list answer then Some answer
               else if is_str answer then json_loads B (py_str B answer)
               else Some (PList [answer]))
         else if prefix ''{'' fh \<or> fh = ''object''
         then (if is_dict answer then Some answer
               else if is_str answer then json_loads B (py_str B answer)
               else Some (PDict [(''result'', answer)]))
         else Some answer)
      in case tried of Some v \<Rightarrow> v | None \<Rightarrow> get_fallback_answer fh)"

record item =
  item_id :: "string option"
  item_question :: "string option"
  item_format_hint :: "string option"

record answer_record =
  out_id :: string
  out_final_answer :: pyval
  out_sql :: string
  out_confidence :: real
  out_explanation :: string
  out_citations :: pyval

text \<open>
  \<^verbatim>\<open>process_question\<close>: the record written for one question. An exception leaving
  \<^verbatim>\<open>graph.invoke\<close> gives the fallback record.
\<close>

definition process_question :: "builtins \<Rightarrow> outputs list \<Rightarrow> item \<Rightarrow> answer_record option" where
  "process_question B outs it =
     (let question_id = (case item_id it of None \<Rightarrow> [] | Some t \<Rightarrow> t);
          q = (case item_question it of None \<Rightarrow> [] | Some t \<Rightarrow> t);
          fh = (case item_format_hint it of None \<Rightarrow> ''str'' | Some t \<Rightarrow> t)
      in case run B outs Router (initial_state q fh) of
           None \<Rightarrow> None
         | Some (tr, Raised e) \<Rightarrow>
             Some \<lparr>out_id = question_id,
                   out_final_answer = get_fallback_answer fh,
                   out_sql = [],
                   out_confidence = 0.1,
                   out_explanation = ''Error processing question: '' @ take 100 (exn_text e),
                   out_citations = PList []\<rparr>
         | Some (tr, Finished result_state) \<Rightarrow>
             (let expl = explanation result_state;
                  expl = (if 200 < length expl
                          then (let e2 = join ''. '' (take 2 (split_on ''. '' [] expl))
                                in if suffix ''.'' e2 then e2 else e2 @ ''.'')
                          else expl)
              in Some \<lparr>out_id = question_id,
                       out_final_answer =
                         format_answer_for_output B (final_answer result_state) fh,
                       out_sql = sql result_state,
                       out_confidence = round2 (confidence result_state),
                       out_explanation = expl,
                       out_citations = citations result_state\<rparr>))"

text \<open>
  The values of the builtins at the arguments that the concrete runs and evaluations
  below reach: \<^verbatim>\<open>float('2.5') = 2.5\<close>, \<^verbatim>\<open>float('inf') = inf\<close>,
  \<^verbatim>\<open>json.loads('5') = 5\<close>, \<^verbatim>\<open>json.loads('{}') = {}\<close>, \<^verbatim>\<open>json.loads('[]') = []\<close>,
  \<^verbatim>\<open>json.dumps({}) = '{}'\<close>, and \<^verbatim>\<open>json.loads('n/a')\<close> and \<^verbatim>\<open>float('abc')\<close> raise.
  They call the builtins at no other argument.
\<close>

definition py0 :: builtins where
  "py0 = \<lparr>str_of = (\<lambda>x. []),
          float_of = (\<lambda>t. if t = ''2.5'' then Some (Fin 2.5)
                           else if t = ''inf'' then Some (Inf True) else None),
          json_loads = (\<lambda>t. if t = ''5'' then Some (PInt 5)
                             else if t = ''{}'' then Some (PDict [])
                             else if t = ''[]'' then Some (PList []) else None),
          json_dumps = (\<lambda>x. ''{}'')\<rparr>"

section \<open>Measures of the graph\<close>

text \<open>
  How many nodes, and how many passes through the synthesizer, a run can still execute
  from a node at a given \<open>repair_count\<close>.
\<close>

definition synth_steps :: "nat \<Rightarrow> nat" where
  "synth_steps rc = (if 2 \<le> rc then 1 else if rc = 1 then 5 else 9)"

definition steps_left :: "node \<Rightarrow> nat \<Rightarrow> nat" where
  "steps_left n rc =
     (case n of
        END \<Rightarrow> 0
      | Synthesizer \<Rightarrow> synth_steps rc
      | Repair \<Rightarrow> (if 2 \<le> rc then 1 else 3 + synth_steps (rc + 1))
      | Executor \<Rightarrow> 1 + synth_steps rc
      | NL2SQL \<Rightarrow> 2 + synth_steps rc
      | Planner \<Rightarrow> 3 + synth_steps rc
      | Retriever \<Rightarrow> 4 + synth_steps rc
      | Router \<Rightarrow> 5 + synth_steps rc)"

definition synth_left :: "node \<Rightarrow> nat \<Rightarrow> nat" where
  "synth_left n rc =
     (case n of
        END \<Rightarrow> 0
      | Repair \<Rightarrow> (if 2 \<le> rc then 0 else 2 - rc)
      | _ \<Rightarrow> (if 2 \<le> rc then 1 else 3 - rc))"

section \<open>Two concrete questions\<close>

text \<open>
  A question routed to \<open>sql\<close> whose generated query names a column that does not
  exist, so that the store answers every execution with the same error; the reasoning
  capability answers the synthesis with a plain text.
\<close>

definition out_sql_fail :: outputs where
  "out_sql_fail =
     \<lparr>lm_route = Some ''sql'', found_docs = [], lm_constraints = None,
      lm_sql = Some ''SELECT nme FROM Customers'',
      store = Inl ''no such column: nme'',
      lm_synth = \<lparr>lm_final_answer = Some (PStr ''unknown''),
                  lm_explanation = Some ''No data'', lm_citations = Some []\<rparr>\<rparr>"

definition item_sql_fail :: item where
  "item_sql_fail =
     \<lparr>item_id = Some ''q1'', item_question = Some ''q'', item_format_hint = Some ''str''\<rparr>"

text \<open>The states that run goes through before its first synthesis.\<close>

definition st_routed :: AgentState where
  "st_routed = (initial_state ''q'' ''str'')\<lparr>route := ''sql''\<rparr>"

definition st_generated :: AgentState where
  "st_generated = st_routed\<lparr>sql := ''SELECT nme FROM Customers''\<rparr>"

definition st_executed :: AgentState where
  "st_executed = st_generated\<lparr>sql_result := Some \<lparr>columns = [], rows = [], err = Some ''no such column: nme''\<rparr>, error := Some ''no such column: nme''\<rparr>"

text \<open>The state of that run when it first enters \<open>Repair\<close>.\<close>

definition state_sql_fail :: AgentState where
  "state_sql_fail =
     \<lparr>question = ''q'', format_hint = ''str'', route = ''sql'',
      retrieved_docs = [], extracted_constraints = PDict [],
      sql = ''SELECT nme FROM Customers'',
      sql_result = Some \<lparr>columns = [], rows = [], err = Some ''no such column: nme''\<rparr>,
      final_answer = PStr ''unknown'', confidence = 0.5,
      explanation = ''No data'', citations = PList [],
      error = Some ''no such column: nme'', repair_count = 0\<rparr>"

text \<open>
  A question routed to \<open>sql\<close> with format hint \<open>list\<close> whose query succeeds with
  one row; the reasoning capability answers the synthesis with the text \<open>5\<close>.
\<close>

definition out_bad_list :: outputs where
  "out_bad_list =
     \<lparr>lm_route = Some ''sql'', found_docs = [], lm_constraints = None,
      lm_sql = Some ''SELECT COUNT(*) AS n FROM Customers'',
      store = Inr ([''n''], [[PInt 5]]),
      lm_synth = \<lparr>lm_final_answer = Some (PStr ''5''),
                  lm_explanation = Some ''Counted'', lm_citations = Some []\<rparr>\<rparr>"

text \<open>The states that run goes through, up to its entry into \<open>Repair\<close>.\<close>

definition st_bad_routed :: AgentState where
  "st_bad_routed = (initial_state ''how many'' ''list'')\<lparr>route := ''sql''\<rparr>"

definition st_bad_generated :: AgentState where
  "st_bad_generated = st_bad_routed\<lparr>sql := ''SELECT COUNT(*) AS n FROM Customers''\<rparr>"

definition st_bad_executed :: AgentState where
  "st_bad_executed = st_bad_generated\<lparr>sql_result := Some \<lparr>columns = [''n''], rows = [[PInt 5]], err = None\<rparr>\<rparr>"

definition state_bad_list :: AgentState where
  "state_bad_list = st_bad_executed\<lparr>final_answer := PInt 5, confidence := 0.8,
      explanation := ''Counted''\<rparr>"

section \<open>Normalisation is idempotent\<close>

lemma replace_all_noocc: "\<not> occurs p s \<Longrightarrow> replace_all p r s = s"
  by (induction s) auto

lemma occurs_drop: "\<not> occurs q s \<Longrightarrow> q \<noteq> [] \<Longrightarrow> \<not> occurs q (drop n s)"
proof (induction s arbitrary: n)
  case Nil
  then show ?case by simp
next
  case (Cons c cs)
  then show ?case by (cases n) auto
qed

lemma prefix_append_cases:
  assumes "prefix q (u @ v)"
  shows "prefix q u \<or> (\<exists>q'. q = u @ q' \<and> q' \<noteq> [] \<and> prefix q' v)"
  using assms by (auto simp: prefix_append)

text \<open>
  A match of \<open>q\<close> that starts in copied text \<open>u\<close> and reaches into the output of the
  rewrite was there before the rewrite, when the first character of the replacement
  occurs in \<open>q\<close> at its head only.
\<close>

lemma prefix_replace_all:
  assumes "r \<noteq> []" and "hd r \<notin> set (tl q)"
  shows "prefix q (u @ replace_all p r cs) \<Longrightarrow> u \<noteq> [] \<Longrightarrow> prefix q (u @ cs)"
proof (induction cs arbitrary: u)
  case Nil
  then show ?case by simp
next
  case (Cons c cs)
  show ?case
  proof (cases "p \<noteq> [] \<and> prefix p (c # cs)")
    case False
    with Cons.prems have "prefix q ((u @ [c]) @ replace_all p r cs)" by simp
    then have "prefix q ((u @ [c]) @ cs)" by (rule Cons.IH) simp
    then show ?thesis by simp
  next
    case True
    let ?rest = "replace_all p r (drop (length p) (c # cs))"
    from True Cons.prems have pq: "prefix q (u @ r @ ?rest)" by simp
    from prefix_append_cases[OF pq] show ?thesis
    proof
      assume "prefix q u"
      then show ?thesis by (simp add: prefix_prefix)
    next
      assume "\<exists>q'. q = u @ q' \<and> q' \<noteq> [] \<and> prefix q' (r @ ?rest)"
      then obtain q' where q: "q = u @ q'" and q': "q' \<noteq> []"
        and pr: "prefix q' (r @ ?rest)" by blast
      from pr q' assms(1) have "hd q' = hd r" by (cases q'; cases r) auto
      moreover have "hd q' \<in> set (tl q)" using q q' Cons.prems(2) by (cases u; cases q') auto
      ultimately show ?thesis using assms(2) by simp
    qed
  qed
qed

lemma not_prefix_step:
  assumes "r \<noteq> []" and "hd r \<notin> set (tl q)" and "\<not> prefix q (c # cs)"
  shows "\<not> prefix q (c # replace_all p r cs)"
  using prefix_replace_all[OF assms(1,2), of "[c]" p cs] assms(3) by auto

text \<open>
  After the rewrite of \<open>p\<close> into \<open>r\<close> the text \<open>q\<close> does not occur, when \<open>q\<close> is the
  rewritten pattern itself or did not occur before, and an inserted \<open>r\<close> cannot
  start a match of \<open>q\<close>.
\<close>

lemma replace_all_absent:
  assumes r: "r \<noteq> []" "hd r \<notin> set (tl q)" and q: "q \<noteq> []"
    and ins: "\<And>w. \<not> occurs q w \<Longrightarrow> \<not> occurs q (r @ w)"
  shows "q = p \<or> \<not> occurs q s \<Longrightarrow> \<not> occurs q (replace_all p r s)"
proof (induction s rule: length_induct)
  case (1 s)
  show ?case
  proof (cases s)
    case Nil
    with q show ?thesis by simp
  next
    case (Cons c cs)
    show ?thesis
    proof (cases "p \<noteq> [] \<and> prefix p (c # cs)")
      case True
      let ?rest = "drop (length p) (c # cs)"
      have "length ?rest < length s" using True Cons by (cases p) auto
      moreover have "q = p \<or> \<not> occurs q ?rest"
        using "1.prems" Cons occurs_drop[OF _ q, of s "length p"] by auto
      ultimately have "\<not> occurs q (replace_all p r ?rest)" using "1.IH" by blast
      then have "\<not> occurs q (r @ replace_all p r ?rest)" by (rule ins)
      with True Cons show ?thesis by simp
    next
      case False
      have "q = p \<or> \<not> occurs q cs" using "1.prems" Cons by auto
      then have rest: "\<not> occurs q (replace_all p r cs)" using "1.IH" Cons by auto
      have "\<not> prefix q (c # cs)" using "1.prems" Cons False q by auto
      then have "\<not> prefix q (c # replace_all p r cs)" by (rule not_prefix_step[OF r])
      with rest False Cons show ?thesis by auto
    qed
  qed
qed

lemma ins_items_quoted:
  "\<not> occurs quoted_order_details w \<Longrightarrow> \<not> occurs quoted_order_details (''order_items'' @ w)"
  by (simp add: quoted_order_details_def)

lemma ins_company_quoted:
  "\<not> occurs quoted_order_details w \<Longrightarrow> \<not> occurs quoted_order_details (''CompanyName'' @ w)"
  by (simp add: quoted_order_details_def)

lemma ins_items_Order_Items:
  "\<not> occurs ''Order_Items'' w \<Longrightarrow> \<not> occurs ''Order_Items'' (''order_items'' @ w)"
  by simp

lemma ins_company_Order_Items:
  "\<not> occurs ''Order_Items'' w \<Longrightarrow> \<not> occurs ''Order_Items'' (''CompanyName'' @ w)"
  by simp

lemma ins_company_CustomerName:
  "\<not> occurs ''CustomerName'' w \<Longrightarrow> \<not> occurs ''CustomerName'' (''CompanyName'' @ w)"
  by simp

lemma quoted_side:
  "quoted_order_details \<noteq> []"
  "hd ''order_items'' \<notin> set (tl quoted_order_details)"
  "hd ''CompanyName'' \<notin> set (tl quoted_order_details)"
  by (simp_all add: quoted_order_details_def)

lemma clean_sql_unfold:
  "clean_sql s = replace_all ''CustomerName'' ''CompanyName''
     (replace_all ''Order_Items'' ''order_items''
       (replace_all quoted_order_details ''order_items'' s))"
  by (simp add: clean_sql_def replacements_def)

lemma clean_sql_absent:
  "\<not> occurs quoted_order_details (clean_sql s)"
  "\<not> occurs ''Order_Items'' (clean_sql s)"
  "\<not> occurs ''CustomerName'' (clean_sql s)"
proof -
  let ?s1 = "replace_all quoted_order_details ''order_items'' s"
  let ?s2 = "replace_all ''Order_Items'' ''order_items'' ?s1"
  have a1: "\<not> occurs quoted_order_details ?s1"
    by (rule replace_all_absent[OF _ quoted_side(2) quoted_side(1) ins_items_quoted]) simp_all
  have a2: "\<not> occurs quoted_order_details ?s2"
    by (rule replace_all_absent[OF _ quoted_side(2) quoted_side(1) ins_items_quoted])
       (simp_all add: a1)
  show "\<not> occurs quoted_order_details (clean_sql s)" unfolding clean_sql_unfold
    by (rule replace_all_absent[OF _ quoted_side(3) quoted_side(1) ins_company_quoted])
       (simp_all add: a2)
  have b2: "\<not> occurs ''Order_Items'' ?s2"
    by (rule replace_all_absent[OF _ _ _ ins_items_Order_Items]) simp_all
  show "\<not> occurs ''Order_Items'' (clean_sql s)" unfolding clean_sql_unfold
    by (rule replace_all_absent[OF _ _ _ ins_company_Order_Items]) (simp_all add: b2)
  show "\<not> occurs ''CustomerName'' (clean_sql s)" unfolding clean_sql_unfold
    by (rule replace_all_absent[OF _ _ _ ins_company_CustomerName]) simp_all
qed

text \<open>
  C9. \<^verbatim>\<open>_clean_sql\<close> is idempotent: for every text \<open>s\<close>, applying the three rewrites
  to an already rewritten text changes nothing.
\<close>

theorem clean_sql_idempotent: "clean_sql (clean_sql s) = clean_sql s"
proof -
  have "clean_sql (clean_sql s) = replace_all ''CustomerName'' ''CompanyName''
     (replace_all ''Order_Items'' ''order_items''
       (replace_all quoted_order_details ''order_items'' (clean_sql s)))"
    by (rule clean_sql_unfold)
  also have "\<dots> = clean_sql s"
    by (simp add: replace_all_noocc clean_sql_absent)
  finally show ?thesis .
qed

section \<open>Evaluating the model\<close>

lemmas model_defs =
  step_def router_node_def retriever_node_def planner_node_def nl2sql_node_def executor_node_def
  synthesizer_node_def repair_node_def should_retrieve_def should_plan_def should_execute_sql_def
  should_repair_def after_repair_def detect_sql_error_def detect_format_error_def
  validate_format_def forward_def format_answer_def format_answer_try_def get_format_default_def
  calculate_confidence_def generate_basic_citations_def has_rows_def execute_def
  router_forward_def nl2sql_forward_def planner_forward_def clean_sql_def replacements_def
  quoted_order_details_def strip_def lower_def lower_char_def is_space_def py_str_def
  is_list_def is_dict_def is_int_def is_float_def is_str_def type_name_def initial_state_def
  Let_def

lemma run_stepI:
  "step B out n s = Inr (n', s') \<Longrightarrow> n \<noteq> END \<Longrightarrow> run B outs n' s' = Some (tr, r) \<Longrightarrow>
   run B (out # outs) n s = Some (n # tr, r)"
  by simp

lemma run_raiseI:
  "step B out n s = Inl e \<Longrightarrow> n \<noteq> END \<Longrightarrow> run B (out # outs) n s = Some ([n], Raised e)"
  by simp

lemma run_endI: "run B outs END s = Some ([], Finished s)"
  by (cases outs) simp_all

lemma exec_stepI:
  "step B out n s = Inr (n', s') \<Longrightarrow> exec_steps B outs n' s' = c \<Longrightarrow>
   exec_steps B (out # outs) n s = c"
  by simp

lemma steps_sql_fail:
  "step py0 out_sql_fail Router (initial_state ''q'' ''str'') = Inr (Planner, st_routed)"
  "step py0 out_sql_fail Planner st_routed = Inr (NL2SQL, st_routed)"
  "step py0 out_sql_fail NL2SQL st_routed = Inr (Executor, st_generated)"
  "step py0 out_sql_fail Executor st_generated = Inr (Synthesizer, st_executed)"
  "step py0 out_sql_fail Synthesizer st_executed = Inr (Repair, state_sql_fail)"
  "step py0 out_sql_fail Repair state_sql_fail = Inr (Synthesizer, state_sql_fail\<lparr>repair_count := 1\<rparr>)"
  "step py0 out_sql_fail Synthesizer (state_sql_fail\<lparr>repair_count := 1\<rparr>)
     = Inr (Repair, state_sql_fail\<lparr>confidence := 0.45, repair_count := 1\<rparr>)"
  "step py0 out_sql_fail Repair (state_sql_fail\<lparr>confidence := 0.45, repair_count := 1\<rparr>)
     = Inr (Synthesizer, state_sql_fail\<lparr>confidence := 0.45, repair_count := 2\<rparr>)"
  "step py0 out_sql_fail Synthesizer (state_sql_fail\<lparr>confidence := 0.45, repair_count := 2\<rparr>)
     = Inr (END, state_sql_fail\<lparr>confidence := 0.405, repair_count := 2\<rparr>)"
  by (simp_all add: model_defs out_sql_fail_def py0_def state_sql_fail_def st_routed_def
      st_generated_def st_executed_def power2_eq_square)

lemma reach_repair_sql_fail:
  "exec_steps py0 [out_sql_fail, out_sql_fail, out_sql_fail, out_sql_fail, out_sql_fail]
     Router (initial_state ''q'' ''str'') = Inr (Repair, state_sql_fail)"
  by (intro exec_stepI[OF steps_sql_fail(1)] exec_stepI[OF steps_sql_fail(2)]
      exec_stepI[OF steps_sql_fail(3)] exec_stepI[OF steps_sql_fail(4)]
      exec_stepI[OF steps_sql_fail(5)] exec_steps.simps(1))

lemma run_sql_fail:
  "run py0 [out_sql_fail, out_sql_fail, out_sql_fail, out_sql_fail, out_sql_fail,
      out_sql_fail, out_sql_fail, out_sql_fail, out_sql_fail]
     Router (initial_state ''q'' ''str'')
   = Some ([Router, Planner, NL2SQL, Executor, Synthesizer, Repair, Synthesizer, Repair,
            Synthesizer],
           Finished (state_sql_fail\<lparr>confidence := 0.405, repair_count := 2\<rparr>))"
  by (intro run_stepI[OF steps_sql_fail(1)] run_stepI[OF steps_sql_fail(2)]
      run_stepI[OF steps_sql_fail(3)] run_stepI[OF steps_sql_fail(4)]
      run_stepI[OF steps_sql_fail(5)] run_stepI[OF steps_sql_fail(6)]
      run_stepI[OF steps_sql_fail(7)] run_stepI[OF steps_sql_fail(8)]
      run_stepI[OF steps_sql_fail(9)] run_endI node.distinct)

lemma steps_bad_list:
  "step py0 out_bad_list Router (initial_state ''how many'' ''list'') = Inr (Planner, st_bad_routed)"
  "step py0 out_bad_list Planner st_bad_routed = Inr (NL2SQL, st_bad_routed)"
  "step py0 out_bad_list NL2SQL st_bad_routed = Inr (Executor, st_bad_generated)"
  "step py0 out_bad_list Executor st_bad_generated = Inr (Synthesizer, st_bad_executed)"
  "step py0 out_bad_list Synthesizer st_bad_executed = Inr (Repair, state_bad_list)"
  "step py0 out_bad_list Repair state_bad_list = Inl AttributeError"
  by (simp_all add: model_defs out_bad_list_def py0_def state_bad_list_def st_bad_routed_def
      st_bad_generated_def st_bad_executed_def)

lemma run_bad_list:
  "run py0 [out_bad_list, out_bad_list, out_bad_list, out_bad_list, out_bad_list, out_bad_list]
     Router (initial_state ''how many'' ''list'')
   = Some ([Router, Planner, NL2SQL, Executor, Synthesizer, Repair], Raised AttributeError)"
  by (intro run_stepI[OF steps_bad_list(1)] run_stepI[OF steps_bad_list(2)]
      run_stepI[OF steps_bad_list(3)] run_stepI[OF steps_bad_list(4)]
      run_stepI[OF steps_bad_list(5)] run_raiseI[OF steps_bad_list(6)] node.distinct)

section \<open>The graph: steps, termination and the repair counter\<close>

lemma repair_count_nodes [simp]:
  "repair_count (router_node out s) = repair_count s"
  "repair_count (retriever_node out s) = repair_count s"
  "repair_count (planner_node B out s) = repair_count s"
  "repair_count (nl2sql_node out s) = repair_count s"
  "repair_count (executor_node out s) = repair_count s"
  "repair_count (synthesizer_node B out s) = repair_count s"
  "repair_count (repair_node B s) = repair_count s + 1"
  by (simp_all add: router_node_def retriever_node_def planner_node_def nl2sql_node_def
      executor_node_def synthesizer_node_def repair_node_def Let_def)

lemma error_repair_forced: "2 \<le> repair_count s \<Longrightarrow> error (repair_node B s) = None"
  by (simp add: repair_node_def Let_def)

lemma step_cases:
  assumes "step B out n s = Inr (n', s')"
  shows "(n = Router \<and> s' = router_node out s \<and> (n' = Retriever \<or> n' = Planner))
       \<or> (n = Retriever \<and> s' = retriever_node out s \<and> (n' = Planner \<or> n' = Synthesizer))
       \<or> (n = Planner \<and> s' = planner_node B out s \<and> (n' = NL2SQL \<or> n' = Synthesizer))
       \<or> (n = NL2SQL \<and> s' = nl2sql_node out s \<and> n' = Executor)
       \<or> (n = Executor \<and> s' = executor_node out s \<and> n' = Synthesizer)
       \<or> (n = Synthesizer \<and> s' = synthesizer_node B out s
            \<and> (n' = END \<or> n' = Repair \<and> repair_count s < 2))
       \<or> (n = Repair \<and> s' = repair_node B s \<and> repair_count s < 2
            \<and> (n' = NL2SQL \<or> n' = Synthesizer))
       \<or> (n = END \<and> s' = s \<and> n' = END)"
proof (cases n)
  case Repair
  show ?thesis
  proof (cases "2 \<le> repair_count s")
    case True
    with assms Repair error_repair_forced[OF True, of B] show ?thesis
      by (simp add: step_def after_repair_def Let_def)
  next
    case False
    with assms Repair show ?thesis
      by (auto simp: step_def after_repair_def Let_def split: option.splits if_splits sum.splits)
  qed
qed (use assms in \<open>auto simp: step_def Let_def should_retrieve_def should_plan_def
      should_execute_sql_def should_repair_def split: if_splits\<close>)

lemma step_raises_only_in_repair: "step B out n s = Inl e \<Longrightarrow> n = Repair"
  by (cases n) (auto simp: step_def Let_def)

lemma step_measure:
  assumes "step B out n s = Inr (n', s')" and "n \<noteq> END"
  shows "steps_left n' (repair_count s') < steps_left n (repair_count s)"
    and "synth_left n' (repair_count s') + (if n = Synthesizer then 1 else 0)
           \<le> synth_left n (repair_count s)"
  using step_cases[OF assms(1)] assms(2)
  by (auto simp: steps_left_def synth_left_def synth_steps_def)

lemma run_bounded:
  "steps_left n (repair_count s) \<le> length outs \<Longrightarrow>
     \<exists>tr r. run B outs n s = Some (tr, r) \<and> count_list tr Synthesizer \<le> synth_left n (repair_count s)"
proof (induction outs arbitrary: n s)
  case Nil
  then have "n = END" by (cases n) (auto simp: steps_left_def synth_steps_def split: if_splits)
  then show ?case by simp
next
  case (Cons out outs)
  show ?case
  proof (cases "n = END")
    case True
    then show ?thesis by simp
  next
    case False
    show ?thesis
    proof (cases "step B out n s")
      case (Inl e)
      then have "n = Repair" by (rule step_raises_only_in_repair)
      with Inl show ?thesis by simp
    next
      case (Inr c)
      obtain n' s' where c: "c = (n', s')" by (cases c)
      from step_measure[OF Inr[unfolded c] False] Cons.prems
      have m: "steps_left n' (repair_count s') \<le> length outs"
        and k: "synth_left n' (repair_count s') + (if n = Synthesizer then 1 else 0)
                  \<le> synth_left n (repair_count s)" by auto
      from Cons.IH[OF m] obtain tr r where
        r: "run B outs n' s' = Some (tr, r)"
        and cnt: "count_list tr Synthesizer \<le> synth_left n' (repair_count s')" by blast
      from r Inr c False have "run B (out # outs) n s = Some (n # tr, r)" by simp
      moreover from cnt k have "count_list (n # tr) Synthesizer \<le> synth_left n (repair_count s)"
        by auto
      ultimately show ?thesis by blast
    qed
  qed
qed

text \<open>
  C2. Every invocation of the engine on one question ends, whatever the collaborators
  answer and whether or not the detected error persists: with collaborator answers for
  14 node executions the run is over, at \<open>END\<close> or by an exception leaving the graph,
  and the synthesizer has executed at most 3 times.
\<close>

theorem synthesizer_passes_bounded:
  "14 \<le> length outs \<Longrightarrow>
     \<exists>tr r. run B outs Router (initial_state q fh) = Some (tr, r) \<and> count_list tr Synthesizer \<le> 3"
  using run_bounded[of Router "initial_state q fh" outs B]
  by (simp add: steps_left_def synth_left_def synth_steps_def initial_state_def)

theorem synthesizer_passes_bounded_witness:
  "14 \<le> length (replicate 14 out_sql_fail)
   \<and> (\<exists>tr r. run py0 (replicate 14 out_sql_fail) Router (initial_state ''q'' ''str'') = Some (tr, r)
         \<and> count_list tr Synthesizer \<le> 3)"
  using synthesizer_passes_bounded[where outs = "replicate 14 out_sql_fail" and B = py0
      and q = "''q''" and fh = "''str''"]
  by simp

lemma exec_steps_invariant:
  "exec_steps B outs n s = Inr (n', s') \<Longrightarrow>
   repair_count s \<le> 2 \<and> (n = Repair \<longrightarrow> repair_count s < 2) \<Longrightarrow>
   repair_count s' \<le> 2 \<and> (n' = Repair \<longrightarrow> repair_count s' < 2)"
proof (induction outs arbitrary: n s)
  case Nil
  then show ?case by simp
next
  case (Cons out outs)
  from Cons.prems(1) obtain n1 s1 where st: "step B out n s = Inr (n1, s1)"
    and rest: "exec_steps B outs n1 s1 = Inr (n', s')"
    by (auto split: sum.splits)
  from step_cases[OF st] Cons.prems(2)
  have "repair_count s1 \<le> 2 \<and> (n1 = Repair \<longrightarrow> repair_count s1 < 2)" by auto
  with Cons.IH[OF rest] show ?case by blast
qed

text \<open>
  C10. In every configuration that a run started at the router with \<open>repair_count = 0\<close>
  reaches, \<open>repair_count\<close> is at most 2; the repair node is only entered with
  \<open>repair_count < 2\<close>, so the test \<open>repair_count > 2\<close> that it makes after its
  increment is false and the branch it guards is never taken.
\<close>

theorem repair_count_bounded:
  assumes "repair_count s0 = 0" and "exec_steps B outs Router s0 = Inr (n, s)"
  shows "repair_count s \<le> 2 \<and> (n = Repair \<longrightarrow> repair_count s < 2 \<and> \<not> 2 < repair_count s + 1)"
  using exec_steps_invariant[OF assms(2)] assms(1) by auto

theorem repair_count_bounded_witness:
  "repair_count (initial_state ''q'' ''str'') = 0
   \<and> exec_steps py0 [out_sql_fail, out_sql_fail, out_sql_fail, out_sql_fail, out_sql_fail]
        Router (initial_state ''q'' ''str'') = Inr (Repair, state_sql_fail)
   \<and> repair_count state_sql_fail \<le> 2
   \<and> repair_count state_sql_fail < 2 \<and> \<not> 2 < repair_count state_sql_fail + 1"
  using repair_count_bounded[OF _ reach_repair_sql_fail] reach_repair_sql_fail
  by (simp add: initial_state_def)

section \<open>Confidence\<close>

text \<open>
  C3. The confidence a synthesizer invocation produces is
  \<open>clamp(base * 0.9 ^ repair_count, 0.1, 1.0)\<close> with \<open>base\<close> = 0.5, plus 0.3 when the
  query result has a row, plus 0.2 when the retrieved documents are non-empty. It is a
  function of these three inputs and does not depend on what the reasoning capability
  returned. Stated for \<open>forward\<close> and for the node that calls it.
\<close>

theorem synth_confidence_formula:
  "pred_confidence (forward B result fh res docs rc) =
     max 0.1 (min 1.0 ((0.5 + (if has_rows res then 0.3 else 0)
                            + (if docs \<noteq> [] then 0.2 else 0)) * 0.9 ^ rc))
   \<and> confidence (synthesizer_node B out s) =
     max 0.1 (min 1.0 ((0.5 + (if has_rows (sql_result s) then 0.3 else 0)
                            + (if retrieved_docs s \<noteq> [] then 0.2 else 0)) * 0.9 ^ repair_count s))"
  by (simp add: synthesizer_node_def forward_def calculate_confidence_def Let_def)

lemma round_half_even_bounds:
  assumes "10 \<le> x" and "x \<le> 100"
  shows "10 \<le> round_half_even x \<and> round_half_even x \<le> 100"
proof -
  define f where "f = \<lfloor>x\<rfloor>"
  have f1: "of_int f \<le> x" and f2: "x < of_int f + 1"
    unfolding f_def by linarith+
  have lo: "10 \<le> f" using assms(1) f2 by linarith
  have hi: "f \<le> 100" using assms(2) f1 by linarith
  have r: "round_half_even x = f \<or> (round_half_even x = f + 1 \<and> 1 / 2 \<le> x - of_int f)"
    unfolding round_half_even_def Let_def f_def by auto
  show ?thesis
  proof (cases "f = 100")
    case True
    with f1 assms(2) have "x - of_int f \<le> 0" by simp
    with r have "round_half_even x = f" by linarith
    with True show ?thesis by simp
  next
    case False
    with hi have "f + 1 \<le> 100" by simp
    with lo r show ?thesis by auto
  qed
qed

lemma round2_bounds:
  assumes "0.1 \<le> c" and "c \<le> 1"
  shows "0.1 \<le> round2 c \<and> round2 c \<le> 1"
proof -
  have "10 \<le> c * 100" "c * 100 \<le> 100" using assms by simp_all
  from round_half_even_bounds[OF this]
  have "(10::real) \<le> of_int (round_half_even (c * 100))"
    and "of_int (round_half_even (c * 100)) \<le> (100::real)"
    by linarith+
  then show ?thesis by (simp add: round2_def)
qed

lemma calculate_confidence_bounds:
  "0.1 \<le> calculate_confidence r docs rc \<and> calculate_confidence r docs rc \<le> 1"
  by (simp add: calculate_confidence_def Let_def)

lemma synthesizer_node_confidence:
  "0.1 \<le> confidence (synthesizer_node B out s) \<and> confidence (synthesizer_node B out s) \<le> 1"
  using calculate_confidence_bounds
  by (simp add: synthesizer_node_def forward_def Let_def)

lemma repair_node_confidence_cases:
  "confidence (repair_node B s) = max 0.1 (confidence s * 0.3)
   \<or> confidence (repair_node B s) = max 0.1 (confidence s * 0.9 ^ (repair_count s + 1))
   \<or> confidence (repair_node B s) = confidence s"
  by (simp add: repair_node_def Let_def)

lemma repair_node_confidence:
  assumes "0.1 \<le> confidence s" and "confidence s \<le> 1"
  shows "0.1 \<le> confidence (repair_node B s) \<and> confidence (repair_node B s) \<le> 1"
proof -
  have p: "(0.9::real) ^ n \<le> 1" for n by (simp add: power_le_one)
  have "confidence s * 0.9 ^ n \<le> 1 * 1" for n
    using assms p[of n] by (intro mult_mono) simp_all
  then have a: "max 0.1 (confidence s * 0.9 ^ (repair_count s + 1)) \<le> 1"
    by (simp del: power_Suc)
  have b: "max 0.1 (confidence s * 0.3) \<le> 1" using assms by simp
  have c: "(0.1::real) \<le> max 0.1 y" for y by simp
  from repair_node_confidence_cases[of B s] a b c assms show ?thesis
    by (metis)
qed

lemma confidence_other_nodes [simp]:
  "confidence (router_node out s) = confidence s"
  "confidence (retriever_node out s) = confidence s"
  "confidence (planner_node B out s) = confidence s"
  "confidence (nl2sql_node out s) = confidence s"
  "confidence (executor_node out s) = confidence s"
  by (simp_all add: router_node_def retriever_node_def planner_node_def nl2sql_node_def
      executor_node_def Let_def)

lemma step_confidence:
  assumes "step B out n s = Inr (n', s')" and "0.1 \<le> confidence s \<and> confidence s \<le> 1"
  shows "0.1 \<le> confidence s' \<and> confidence s' \<le> 1"
proof -
  from step_cases[OF assms(1)]
  consider "s' = synthesizer_node B out s" | "s' = repair_node B s" | "confidence s' = confidence s"
    by auto
  then show ?thesis
  proof cases
    case 1
    then show ?thesis using synthesizer_node_confidence[of B out s] by simp
  next
    case 2
    then show ?thesis using repair_node_confidence[of s B] assms(2) by simp
  next
    case 3
    then show ?thesis using assms(2) by simp
  qed
qed

lemma step_confidence_set:
  assumes "step B out n s = Inr (n', s')"
    and "n \<in> {Repair, END} \<longrightarrow> 0.1 \<le> confidence s \<and> confidence s \<le> 1"
  shows "n' \<in> {Repair, END} \<longrightarrow> 0.1 \<le> confidence s' \<and> confidence s' \<le> 1"
proof
  assume n': "n' \<in> {Repair, END}"
  from step_cases[OF assms(1)] n'
  consider "s' = synthesizer_node B out s" | "n = END \<and> s' = s"
    by auto
  then show "0.1 \<le> confidence s' \<and> confidence s' \<le> 1"
  proof cases
    case 1
    then show ?thesis using synthesizer_node_confidence[of B out s] by simp
  next
    case 2
    then show ?thesis using assms(2) by simp
  qed
qed

lemma run_finished_confidence:
  "run B outs n s = Some (tr, Finished s') \<Longrightarrow>
   (n \<in> {Repair, END} \<longrightarrow> 0.1 \<le> confidence s \<and> confidence s \<le> 1) \<Longrightarrow>
   0.1 \<le> confidence s' \<and> confidence s' \<le> 1"
proof (induction outs arbitrary: n s tr)
  case Nil
  then show ?case by (auto split: if_splits)
next
  case (Cons out outs)
  show ?case
  proof (cases "n = END")
    case True
    with Cons.prems show ?thesis by auto
  next
    case False
    with Cons.prems(1) obtain n1 s1 tr1 where st: "step B out n s = Inr (n1, s1)"
      and rest: "run B outs n1 s1 = Some (tr1, Finished s')"
      by (auto split: sum.splits)
    from step_confidence_set[OF st Cons.prems(2)] Cons.IH[OF rest] show ?thesis by blast
  qed
qed

text \<open>
  C8. Once a stage of the engine has set it, the confidence lies in \<open>[0.1, 1.0]\<close>:
  the synthesizer sets it inside the bounds, the repair node keeps it inside them, so
  does every step of the graph, and the record the driver writes, the fallback record
  included, carries a confidence inside them.
\<close>

theorem confidence_in_bounds:
  "(0.1 \<le> confidence (synthesizer_node B out s) \<and> confidence (synthesizer_node B out s) \<le> 1.0)
   \<and> (0.1 \<le> confidence s \<and> confidence s \<le> 1.0 \<longrightarrow>
        0.1 \<le> confidence (repair_node B s) \<and> confidence (repair_node B s) \<le> 1.0)
   \<and> (0.1 \<le> confidence s \<and> confidence s \<le> 1.0 \<and> step B out n s = Inr (n', s') \<longrightarrow>
        0.1 \<le> confidence s' \<and> confidence s' \<le> 1.0)
   \<and> (process_question B outs it = Some rec \<longrightarrow>
        0.1 \<le> out_confidence rec \<and> out_confidence rec \<le> 1.0)"
proof (intro conjI impI)
  show "0.1 \<le> confidence (synthesizer_node B out s)" "confidence (synthesizer_node B out s) \<le> 1.0"
    using synthesizer_node_confidence[of B out s] by simp_all
next
  assume "0.1 \<le> confidence s \<and> confidence s \<le> 1.0"
  then show "0.1 \<le> confidence (repair_node B s)" "confidence (repair_node B s) \<le> 1.0"
    using repair_node_confidence[of s B] by simp_all
next
  assume "0.1 \<le> confidence s \<and> confidence s \<le> 1.0 \<and> step B out n s = Inr (n', s')"
  then show "0.1 \<le> confidence s'" "confidence s' \<le> 1.0"
    using step_confidence[of B out n s n' s'] by simp_all
next
  assume pq: "process_question B outs it = Some rec"
  define q where "q = (case item_question it of None \<Rightarrow> [] | Some t \<Rightarrow> t)"
  define fh where "fh = (case item_format_hint it of None \<Rightarrow> ''str'' | Some t \<Rightarrow> t)"
  from pq obtain tr r where r: "run B outs Router (initial_state q fh) = Some (tr, r)"
    by (auto simp: process_question_def Let_def q_def fh_def split: option.splits)
  have "0.1 \<le> out_confidence rec \<and> out_confidence rec \<le> 1"
  proof (cases r)
    case (Raised e)
    with pq r show ?thesis
      by (auto simp: process_question_def Let_def q_def fh_def)
  next
    case (Finished s1)
    with r have "0.1 \<le> confidence s1 \<and> confidence s1 \<le> 1"
      using run_finished_confidence[of B outs Router "initial_state q fh" tr s1] by simp
    then have "0.1 \<le> round2 (confidence s1) \<and> round2 (confidence s1) \<le> 1"
      using round2_bounds by blast
    moreover from pq r Finished have "out_confidence rec = round2 (confidence s1)"
      by (auto simp: process_question_def Let_def q_def fh_def)
    ultimately show ?thesis by simp
  qed
  then show "0.1 \<le> out_confidence rec" "out_confidence rec \<le> 1.0" by simp_all
qed

theorem confidence_in_bounds_witness:
  "(0.1 \<le> confidence state_sql_fail \<and> confidence state_sql_fail \<le> 1.0)
   \<and> step py0 out_sql_fail Repair state_sql_fail
        = Inr (Synthesizer, state_sql_fail\<lparr>repair_count := 1\<rparr>)
   \<and> (0.1 \<le> confidence (repair_node py0 state_sql_fail)
        \<and> confidence (repair_node py0 state_sql_fail) \<le> 1.0)
   \<and> (0.1 \<le> confidence (state_sql_fail\<lparr>repair_count := 1\<rparr>)
        \<and> confidence (state_sql_fail\<lparr>repair_count := 1\<rparr>) \<le> 1.0)
   \<and> process_question py0 [out_sql_fail, out_sql_fail, out_sql_fail, out_sql_fail, out_sql_fail,
      out_sql_fail, out_sql_fail, out_sql_fail, out_sql_fail] item_sql_fail \<noteq> None
   \<and> 0.1 \<le> out_confidence (the (process_question py0 [out_sql_fail, out_sql_fail, out_sql_fail, out_sql_fail, out_sql_fail,
      out_sql_fail, out_sql_fail, out_sql_fail, out_sql_fail] item_sql_fail))
   \<and> out_confidence (the (process_question py0 [out_sql_fail, out_sql_fail, out_sql_fail, out_sql_fail, out_sql_fail,
      out_sql_fail, out_sql_fail, out_sql_fail, out_sql_fail] item_sql_fail)) \<le> 1.0"
proof -
  let ?outs = "[out_sql_fail, out_sql_fail, out_sql_fail, out_sql_fail, out_sql_fail,
      out_sql_fail, out_sql_fail, out_sql_fail, out_sql_fail]"
  have b: "0.1 \<le> confidence state_sql_fail \<and> confidence state_sql_fail \<le> 1.0"
    by (simp add: state_sql_fail_def)
  obtain rec where pq: "process_question py0 ?outs item_sql_fail = Some rec"
    using run_sql_fail by (simp add: process_question_def item_sql_fail_def Let_def)
  from confidence_in_bounds[of py0 out_sql_fail state_sql_fail Repair Synthesizer
      "state_sql_fail\<lparr>repair_count := 1\<rparr>" ?outs item_sql_fail rec]
    b pq steps_sql_fail(6)
  show ?thesis by simp
qed

section \<open>Routing after repair\<close>

text \<open>
  C1. The claim: after \<open>Repair\<close> the next node follows the classified error tag, a
  tag of the query-failure family leading back to query generation. In the run of the
  question with the failing query the classified tag is
  \<open>sql_column_error: no such column: nme\<close>, of the query-failure family, and the
  node after \<open>Repair\<close> is the synthesizer: \<open>after_repair\<close> reads the stored \<open>error\<close>,
  which is the store's message, never the classified tag.
\<close>

theorem after_repair_ignores_classified_tag:
  "exec_steps py0 [out_sql_fail, out_sql_fail, out_sql_fail, out_sql_fail, out_sql_fail]
     Router (initial_state ''q'' ''str'') = Inr (Repair, state_sql_fail)
   \<and> detect_sql_error (repair_node py0 state_sql_fail) = Some ''sql_column_error: no such column: nme''
   \<and> after_repair (repair_node py0 state_sql_fail) = Inr Synthesizer
   \<and> map_sum id fst (step py0 out_sql_fail Repair state_sql_fail) = Inr Synthesizer"
  using reach_repair_sql_fail steps_sql_fail(6)
  by (simp add: repair_node_def detect_sql_error_def detect_format_error_def validate_format_def
      after_repair_def lower_def lower_char_def state_sql_fail_def Let_def)

text \<open>
  C4. The claim: when the detected error still persists at the repair bound, the run
  ends with the confidence multiplied by 0.3 and the error cleared. The run of the
  question with the failing query ends after the third synthesis through the guard
  \<open>should_repair\<close>, with the confidence 0.405 the synthesizer computed, the error
  still stored and still detected.
\<close>

theorem bound_reached_without_force_accept:
  "run py0 [out_sql_fail, out_sql_fail, out_sql_fail, out_sql_fail, out_sql_fail,
            out_sql_fail, out_sql_fail, out_sql_fail, out_sql_fail]
     Router (initial_state ''q'' ''str'')
   = Some ([Router, Planner, NL2SQL, Executor, Synthesizer, Repair, Synthesizer, Repair,
            Synthesizer],
           Finished (state_sql_fail\<lparr>confidence := 0.405, repair_count := 2\<rparr>))
   \<and> error (state_sql_fail\<lparr>confidence := 0.405, repair_count := 2\<rparr>) = Some ''no such column: nme''
   \<and> detect_sql_error (state_sql_fail\<lparr>confidence := 0.405, repair_count := 2\<rparr>) \<noteq> None"
  using run_sql_fail
  by (simp add: detect_sql_error_def lower_def lower_char_def state_sql_fail_def Let_def)

text \<open>
  C5. The claim: a run that enters repair ends with some answer and raises nothing.
  The run of the question with format hint \<open>list\<close> enters \<open>Repair\<close> for a format
  error with no error stored, and \<open>after_repair\<close> raises \<^verbatim>\<open>AttributeError\<close> out of
  the graph.
\<close>

theorem repair_raises_on_format_error:
  "run py0 [out_bad_list, out_bad_list, out_bad_list, out_bad_list, out_bad_list, out_bad_list]
     Router (initial_state ''how many'' ''list'')
   = Some ([Router, Planner, NL2SQL, Executor, Synthesizer, Repair], Raised AttributeError)"
  by (rule run_bad_list)

section \<open>Citations\<close>

text \<open>
  C6, as stated, fails: with a retrieved document and an empty citation text the
  synthesizer returns no citation.
\<close>

theorem citations_empty_with_evidence:
  "[\<lparr>doc_id = ''policy.md::chunk0'', content = ''Returns within 30 days'', score = 0.4\<rparr>] \<noteq> []
   \<and> pred_citations (forward py0
        \<lparr>lm_final_answer = Some (PStr ''30 days''), lm_explanation = None, lm_citations = Some []\<rparr>
        ''str'' None
        [\<lparr>doc_id = ''policy.md::chunk0'', content = ''Returns within 30 days'', score = 0.4\<rparr>] 0)
     = PList []"
  by (simp add: forward_def Let_def)

text \<open>
  C6, amended. The citation text is the text the reasoning capability returned, or
  \<open>[]\<close> when it returned none. Empty citation text gives the empty list, and text
  that parses as JSON gives the decoded value. When the text is non-empty and fails to
  parse, the citations are the fallback: every non-empty id of a retrieved document
  plus, when the query result has a row, the four fixed table names, without
  duplicates; the fallback is non-empty when the query result has a row or some
  retrieved document has a non-empty id.
\<close>

theorem citation_fallback:
  assumes "t = (case lm_citations result of None \<Rightarrow> ''[]'' | Some u \<Rightarrow> u)"
  shows "(t = [] \<longrightarrow> pred_citations (forward B result fh r docs rc) = PList [])
       \<and> (t \<noteq> [] \<and> json_loads B t \<noteq> None \<longrightarrow>
            pred_citations (forward B result fh r docs rc) = the (json_loads B t))
       \<and> (t \<noteq> [] \<and> json_loads B t = None \<longrightarrow>
            pred_citations (forward B result fh r docs rc)
              = PList (map PStr (generate_basic_citations r docs)))
       \<and> distinct (generate_basic_citations r docs)
       \<and> set (generate_basic_citations r docs)
           = {i \<in> doc_id ` set docs. i \<noteq> []}
             \<union> (if has_rows r then {''Orders'', ''Order Details'', ''Products'', ''Customers''} else {})
       \<and> (has_rows r \<or> (\<exists>d \<in> set docs. doc_id d \<noteq> [])
            \<longrightarrow> generate_basic_citations r docs \<noteq> [])"
proof -
  have s: "set (generate_basic_citations r docs)
           = {i \<in> doc_id ` set docs. i \<noteq> []}
             \<union> (if has_rows r then {''Orders'', ''Order Details'', ''Products'', ''Customers''} else {})"
    by (auto simp: generate_basic_citations_def Let_def)
  have "has_rows r \<or> (\<exists>d \<in> set docs. doc_id d \<noteq> []) \<Longrightarrow> set (generate_basic_citations r docs) \<noteq> {}"
    unfolding s by auto
  then have ne: "has_rows r \<or> (\<exists>d \<in> set docs. doc_id d \<noteq> []) \<longrightarrow> generate_basic_citations r docs \<noteq> []"
    by auto
  have c: "pred_citations (forward B result fh r docs rc)
             = (if t \<noteq> []
                then (case json_loads B t of
                        Some v \<Rightarrow> v
                      | None \<Rightarrow> PList (map PStr (generate_basic_citations r docs)))
                else PList [])"
    unfolding assms by (simp add: forward_def Let_def)
  have e: "t = [] \<longrightarrow> pred_citations (forward B result fh r docs rc) = PList []"
    unfolding c by simp
  have p: "t \<noteq> [] \<and> json_loads B t \<noteq> None \<longrightarrow>
            pred_citations (forward B result fh r docs rc) = the (json_loads B t)"
    unfolding c by (cases "json_loads B t") simp_all
  have f: "t \<noteq> [] \<and> json_loads B t = None \<longrightarrow>
            pred_citations (forward B result fh r docs rc)
              = PList (map PStr (generate_basic_citations r docs))"
    unfolding c by simp
  have d: "distinct (generate_basic_citations r docs)"
    by (simp add: generate_basic_citations_def Let_def)
  from e p f d s ne show ?thesis by blast
qed

theorem citation_fallback_witness:
  "pred_citations (forward py0
        \<lparr>lm_final_answer = Some (PStr ''30 days''), lm_explanation = None, lm_citations = Some []\<rparr>
        ''str'' None
        [\<lparr>doc_id = ''policy.md::chunk0'', content = ''Returns within 30 days'', score = 0.4\<rparr>] 0) = PList []
   \<and> ''[]'' \<noteq> [] \<and> json_loads py0 ''[]'' \<noteq> None
   \<and> pred_citations (forward py0
        \<lparr>lm_final_answer = Some (PStr ''30 days''), lm_explanation = None, lm_citations = None\<rparr>
        ''str'' None
        [\<lparr>doc_id = ''policy.md::chunk0'', content = ''Returns within 30 days'', score = 0.4\<rparr>] 0) = PList []
   \<and> ''n/a'' \<noteq> [] \<and> json_loads py0 ''n/a'' = None
   \<and> pred_citations (forward py0
        \<lparr>lm_final_answer = Some (PStr ''30 days''), lm_explanation = None, lm_citations = Some ''n/a''\<rparr>
        ''str'' None
        [\<lparr>doc_id = ''policy.md::chunk0'', content = ''Returns within 30 days'', score = 0.4\<rparr>] 0)
     = PList [PStr ''policy.md::chunk0'']"
  using citation_fallback[of "[]" "\<lparr>lm_final_answer = Some (PStr ''30 days''), lm_explanation = None, lm_citations = Some []\<rparr>" py0 "''str''" None
      "[\<lparr>doc_id = ''policy.md::chunk0'', content = ''Returns within 30 days'', score = 0.4\<rparr>]" 0]
    citation_fallback[of "''[]''" "\<lparr>lm_final_answer = Some (PStr ''30 days''), lm_explanation = None, lm_citations = None\<rparr>" py0 "''str''" None
      "[\<lparr>doc_id = ''policy.md::chunk0'', content = ''Returns within 30 days'', score = 0.4\<rparr>]" 0]
    citation_fallback[of "''n/a''" "\<lparr>lm_final_answer = Some (PStr ''30 days''), lm_explanation = None, lm_citations = Some ''n/a''\<rparr>" py0 "''str''" None
      "[\<lparr>doc_id = ''policy.md::chunk0'', content = ''Returns within 30 days'', score = 0.4\<rparr>]" 0]
  by (simp add: py0_def generate_basic_citations_def has_rows_def)

section \<open>Answer coercion\<close>

text \<open>
  C7, as stated, fails: under the hint \<open>list\<close> the text \<open>5\<close> decodes as JSON to the
  integer 5, which is returned though it is no sequence.
\<close>

theorem list_hint_gives_non_list:
  "format_answer py0 (PStr ''5'') ''list'' = PInt 5 \<and> \<not> is_list (format_answer py0 (PStr ''5'') ''list'')"
  by (simp add: model_defs py0_def)

lemma object_hint_not_list:
  "prefix ''{'' fh \<or> fh = ''object'' \<Longrightarrow> \<not> (prefix ''list['' fh \<or> fh = ''list'') \<and> fh \<noteq> ''int'' \<and> fh \<noteq> ''float''"
  by (cases fh) auto

lemma list_hint_not_number:
  "prefix ''list['' fh \<or> fh = ''list'' \<Longrightarrow> fh \<noteq> ''int'' \<and> fh \<noteq> ''float''"
  by (cases fh) auto

text \<open>
  C7, amended. Answer coercion returns a value for every hint and every answer. Under
  \<open>int\<close> it is the parsed number truncated to an integer, or 0, also when the text
  parses to a non-finite float; under \<open>float\<close> it is the parsed number rounded to 2
  decimals when that number is finite, the parsed float itself when it is \<open>nan\<close>,
  \<open>inf\<close> or \<open>-inf\<close>, and 0.0 when the text does not parse; under \<open>list\<close> or \<open>list[...]\<close> the
  answer itself when it is a sequence, else the value its text decodes to as JSON, of
  whatever type, else the text wrapped as a single element; under \<open>object\<close> or
  \<open>{...}\<close> the answer itself when it is a mapping, else the value its text decodes to,
  of whatever type, else \<open>{"result": text}\<close>; under any other hint the text.
\<close>

theorem format_answer_shape:
  "(fh = ''int'' \<longrightarrow>
      format_answer B a fh =
        (case float_of B (strip (py_str B a)) of
           Some (Fin r) \<Rightarrow> PInt (if 0 \<le> r then \<lfloor>r\<rfloor> else \<lceil>r\<rceil>)
         | _ \<Rightarrow> PInt 0))
   \<and> (fh = ''float'' \<longrightarrow>
      format_answer B a fh =
        (case float_of B (strip (py_str B a)) of
           Some (Fin r) \<Rightarrow> PFloat (Fin (round2 r))
         | Some f \<Rightarrow> PFloat f
         | None \<Rightarrow> PFloat (Fin 0)))
   \<and> (prefix ''list['' fh \<or> fh = ''list'' \<longrightarrow>
      format_answer B a fh =
        (if is_list a then a
         else case json_loads B (strip (py_str B a)) of
                Some v \<Rightarrow> v
              | None \<Rightarrow> PList [PStr (strip (py_str B a))]))
   \<and> (prefix ''{'' fh \<or> fh = ''object'' \<longrightarrow>
      format_answer B a fh =
        (if is_dict a then a
         else case json_loads B (strip (py_str B a)) of
                Some v \<Rightarrow> v
              | None \<Rightarrow> PDict [(''result'', PStr (strip (py_str B a)))]))
   \<and> (fh \<noteq> ''int'' \<and> fh \<noteq> ''float'' \<and> \<not> prefix ''list['' fh \<and> fh \<noteq> ''list''
        \<and> \<not> prefix ''{'' fh \<and> fh \<noteq> ''object'' \<longrightarrow>
      format_answer B a fh = PStr (strip (py_str B a)))"
proof (intro conjI impI)
  assume "fh = ''int''"
  then show "format_answer B a fh =
        (case float_of B (strip (py_str B a)) of
           Some (Fin r) \<Rightarrow> PInt (if 0 \<le> r then \<lfloor>r\<rfloor> else \<lceil>r\<rceil>)
         | _ \<Rightarrow> PInt 0)"
    by (simp add: format_answer_def format_answer_try_def get_format_default_def py_int_def
        Let_def split: option.splits pyfloat.splits)
next
  assume "fh = ''float''"
  then show "format_answer B a fh =
        (case float_of B (strip (py_str B a)) of
           Some (Fin r) \<Rightarrow> PFloat (Fin (round2 r))
         | Some f \<Rightarrow> PFloat f
         | None \<Rightarrow> PFloat (Fin 0))"
    by (simp add: format_answer_def format_answer_try_def get_format_default_def py_round2_def
        Let_def split: option.splits pyfloat.splits)
next
  assume h: "prefix ''list['' fh \<or> fh = ''list''"
  from list_hint_not_number[OF h] h
  show "format_answer B a fh =
        (if is_list a then a
         else case json_loads B (strip (py_str B a)) of
                Some v \<Rightarrow> v
              | None \<Rightarrow> PList [PStr (strip (py_str B a))])"
    by (simp add: format_answer_def format_answer_try_def Let_def split: option.splits)
next
  assume h: "prefix ''{'' fh \<or> fh = ''object''"
  from object_hint_not_list[OF h] h
  show "format_answer B a fh =
        (if is_dict a then a
         else case json_loads B (strip (py_str B a)) of
                Some v \<Rightarrow> v
              | None \<Rightarrow> PDict [(''result'', PStr (strip (py_str B a)))])"
    by (simp add: format_answer_def format_answer_try_def Let_def split: option.splits)
next
  assume "fh \<noteq> ''int'' \<and> fh \<noteq> ''float'' \<and> \<not> prefix ''list['' fh \<and> fh \<noteq> ''list''
        \<and> \<not> prefix ''{'' fh \<and> fh \<noteq> ''object''"
  then show "format_answer B a fh = PStr (strip (py_str B a))"
    by (simp add: format_answer_def format_answer_try_def Let_def)
qed

theorem format_answer_shape_witness:
  "format_answer py0 (PStr ''abc'') ''int'' = PInt 0
   \<and> format_answer py0 (PStr ''2.5'') ''int'' = PInt 2
   \<and> format_answer py0 (PStr ''inf'') ''int'' = PInt 0
   \<and> format_answer py0 (PStr ''abc'') ''float'' = PFloat (Fin 0)
   \<and> format_answer py0 (PStr ''2.5'') ''float'' = PFloat (Fin 2.5)
   \<and> format_answer py0 (PStr ''inf'') ''float'' = PFloat (Inf True)
   \<and> (prefix ''list['' ''list[str]'' \<or> ''list[str]'' = ''list'')
   \<and> format_answer py0 (PStr ''n/a'') ''list[str]'' = PList [PStr ''n/a'']
   \<and> (prefix ''{'' ''object'' \<or> ''object'' = ''object'')
   \<and> format_answer py0 (PStr ''n/a'') ''object'' = PDict [(''result'', PStr ''n/a'')]
   \<and> format_answer py0 (PStr '' 30 days '') ''str'' = PStr ''30 days''"
  using format_answer_shape[of "''int''" py0 "PStr ''abc''"]
    format_answer_shape[of "''int''" py0 "PStr ''2.5''"]
    format_answer_shape[of "''int''" py0 "PStr ''inf''"]
    format_answer_shape[of "''float''" py0 "PStr ''abc''"]
    format_answer_shape[of "''float''" py0 "PStr ''2.5''"]
    format_answer_shape[of "''float''" py0 "PStr ''inf''"]
    format_answer_shape[of "''list[str]''" py0 "PStr ''n/a''"]
    format_answer_shape[of "''object''" py0 "PStr ''n/a''"]
    format_answer_shape[of "''str''" py0 "PStr '' 30 days ''"]
  by (simp add: py0_def py_str_def strip_def is_space_def is_list_def is_dict_def
      round2_def round_half_even_def)

end
